theory Spec2Isabelle
  imports Main "HOL-Library.Sublist"
begin

section \<open>Data model\<close>

text \<open>
  The component under study is the latest \<^verbatim>\<open>InfoHubv3\<close> of
  \<^verbatim>\<open>react/InfoHubv3.tsx\<close> (the one that starts with \<^verbatim>\<open>showInfoHub\<close>).
  Interfaces become records. Field \<^verbatim>\<open>__editorItemTitle\<close> occurs in three
  interfaces and cannot start with an underscore here, so it is written
  \<open>editorItemTitle\<close> for a post, \<open>editorItemTitle_K\<close> for a topic and
  \<open>editorItemTitle_S\<close> for a keyword; \<open>keywords\<close> and \<open>image\<close> get a suffix
  for the same reason. Strings are ASCII character lists. Numbers that the code
  uses as indices, tiers, pixel widths and millisecond timestamps are integers.
  The record of a topic and the record of the properties are polymorphic in the
  type of a post, so that the same front half of the pipeline serves posts as
  values and posts as references into an object store.
\<close>

record PostObject =
  startDate :: string
  active :: bool
  editorItemTitle :: string
  image_P :: string
  url :: string

record KeywordString =
  editorItemTitle_S :: string

record 'p KeywordObject =
  editorItemTitle_K :: string
  keywords_K :: "KeywordString list"
  topicType :: int
  posts :: "'p list"

record KeywordInfoObject =
  keyword :: string
  topic :: int

record TopicAndPriority =
  topicTP :: int
  priorityTP :: int

record 'p InfoHubv3Props =
  titleText :: string
  articles :: "'p KeywordObject list"
  priority :: "'p list"

datatype Device = desktop | mobile

text \<open>
  The state that survives between renders: the two \<^verbatim>\<open>useState\<close> cells the
  pipeline writes (\<open>loading\<close>, \<open>posts\<close>, here \<open>postsState\<close>) and the two
  \<^verbatim>\<open>useRef\<close> cells (\<open>device\<close>, \<open>activePriorityPosts\<close>).
\<close>

record 'p Component =
  loading :: bool
  postsState :: "'p list"
  device :: Device
  activePriorityPosts :: nat

definition initialComponent :: "'p Component" where
  "initialComponent =
     \<lparr>loading = True, postsState = [], device = mobile, activePriorityPosts = 0\<rparr>"

text \<open>
  What the component reads from its host, the browser. \<open>searchParamsGet s n\<close> is
  \<^verbatim>\<open>new URLSearchParams(s).get(n)\<close>, with \<open>None\<close> for \<^verbatim>\<open>null\<close>;
  \<open>dateParse\<close> is \<^verbatim>\<open>Date.parse\<close>, with \<open>None\<close> for \<^verbatim>\<open>NaN\<close>;
  \<open>now\<close> is \<^verbatim>\<open>Date.now()\<close>; \<open>arraySort c xs\<close> is the array that
  \<^verbatim>\<open>xs.sort(c)\<close> leaves. These are library functions of the host, so they are
  parameters of the model.
\<close>

record Host =
  canUseDOM :: bool
  pathname :: string
  search :: string
  searchParamsGet :: "string \<Rightarrow> string \<Rightarrow> string option"
  innerWidth :: int
  now :: int
  dateParse :: "string \<Rightarrow> int option"
  arraySort :: "(TopicAndPriority \<Rightarrow> TopicAndPriority \<Rightarrow> int)
                 \<Rightarrow> TopicAndPriority list \<Rightarrow> TopicAndPriority list"

datatype error = TypeError

text \<open>
  Every function of the pipeline ends in a call of the next one, so a run either
  returns with a state or is cut short by an exception; the state writes made
  before the exception stand.
\<close>

datatype 'p Outcome = Returned "'p Component" | Threw error "'p Component"

fun stateOf :: "'p Outcome \<Rightarrow> 'p Component" where
  "stateOf (Returned st) = st"
| "stateOf (Threw e st) = st"

definition maximumDesktopPosts :: nat where
  "maximumDesktopPosts = 10"

definition maximumMobilePosts :: nat where
  "maximumMobilePosts = 6"

section \<open>Strings, arrays, sets and maps of the host language\<close>

definition lowerChar :: "char \<Rightarrow> char" where
  "lowerChar c =
     (case map_of (zip ''ABCDEFGHIJKLMNOPQRSTUVWXYZ'' ''abcdefghijklmnopqrstuvwxyz'') c of
        None \<Rightarrow> c
      | Some l \<Rightarrow> l)"

definition toLowerCase :: "string \<Rightarrow> string" where
  "toLowerCase s = map lowerChar s"

text \<open>\<open>includes_str s k\<close> is \<^verbatim>\<open>s.includes(k)\<close>: \<open>k\<close> occurs in \<open>s\<close> at some position.\<close>

fun includes_str :: "string \<Rightarrow> string \<Rightarrow> bool" where
  "includes_str [] k = (k = [])"
| "includes_str (c # s) k = (prefix k (c # s) \<or> includes_str s k)"

text \<open>\<open>lookupIndex xs i\<close> is \<^verbatim>\<open>xs[i]\<close>, with \<open>None\<close> for \<^verbatim>\<open>undefined\<close>.\<close>

definition lookupIndex :: "'a list \<Rightarrow> int \<Rightarrow> 'a option" where
  "lookupIndex xs i = (if 0 \<le> i \<and> nat i < length xs then Some (xs ! nat i) else None)"

text \<open>
  \<open>spreadSet xs\<close> is \<^verbatim>\<open>[...new Set(xs)]\<close>: a set of the host language keeps
  its members in the order of their first insertion.
\<close>

definition Set_add :: "'a list \<Rightarrow> 'a \<Rightarrow> 'a list" where
  "Set_add s x = (if x \<in> set s then s else s @ [x])"

definition spreadSet :: "'a list \<Rightarrow> 'a list" where
  "spreadSet xs = foldl Set_add [] xs"

text \<open>
  A \<^verbatim>\<open>Map\<close> of the host language as the list of its entries in insertion
  order. \<open>Map_set m k v\<close> is \<^verbatim>\<open>m.set(k, v)\<close>: a key that is present keeps its
  place and gets the new value, a new key goes to the end.
\<close>

fun Map_set :: "('k \<times> 'v) list \<Rightarrow> 'k \<Rightarrow> 'v \<Rightarrow> ('k \<times> 'v) list" where
  "Map_set [] k v = [(k, v)]"
| "Map_set ((k', v') # m) k v = (if k' = k then (k', v) # m else (k', v') # Map_set m k v)"

section \<open>The pipeline on post values\<close>

text \<open>
  The source functions call one another in a chain. Each is modelled under its
  own name, in the order of the calls read backwards; the value a function
  computes before the call is a definition named after the local constant
  that holds it.
\<close>

subsection \<open>The opt-out switch\<close>

definition showInfoHub :: "Host \<Rightarrow> bool" where
  "showInfoHub host =
     (if \<not> canUseDOM host then False
      else let ih = searchParamsGet host (search host) ''ih''
           in (if ih = Some ''0'' then False else True))"

subsection \<open>buildRender\<close>

definition truncatePosts :: "Device \<Rightarrow> 'p list \<Rightarrow> 'p list" where
  "truncatePosts d uniquePostArray =
     (let numberOfPosts = length uniquePostArray;
          a1 = (if d = desktop \<and> numberOfPosts > maximumDesktopPosts
                then take maximumDesktopPosts uniquePostArray else uniquePostArray);
          a2 = (if d = mobile \<and> numberOfPosts > maximumMobilePosts
                then take maximumMobilePosts a1 else a1)
      in a2)"

definition buildRender :: "'p Component \<Rightarrow> 'p list \<Rightarrow> 'p Outcome" where
  "buildRender st uniquePostArray =
     Returned (st\<lparr>postsState := truncatePosts (device st) uniquePostArray, loading := False\<rparr>)"

subsection \<open>removeDuplicatePosts\<close>

definition postMap :: "PostObject list \<Rightarrow> (string \<times> PostObject) list" where
  "postMap activePosts = foldl (\<lambda>m post. Map_set m (editorItemTitle post) post) [] activePosts"

definition uniquePosts :: "PostObject list \<Rightarrow> PostObject list" where
  "uniquePosts activePosts = map snd (postMap activePosts)"

definition removeDuplicatePosts :: "PostObject Component \<Rightarrow> PostObject list \<Rightarrow> PostObject Outcome" where
  "removeDuplicatePosts st activePosts = buildRender st (uniquePosts activePosts)"

subsection \<open>removeInactivePosts\<close>

text \<open>
  \<open>tempPost\<close> is the body of the \<^verbatim>\<open>map\<close> callback: a copy of the post whose
  \<open>active\<close> field is overwritten when \<^verbatim>\<open>Date.parse\<close> gives a truthy number,
  that is, neither \<^verbatim>\<open>NaN\<close> nor zero.
\<close>

definition tempPost :: "Host \<Rightarrow> PostObject \<Rightarrow> PostObject" where
  "tempPost host post =
     (case dateParse host (startDate post) of
        None \<Rightarrow> post
      | Some startMs \<Rightarrow>
          if startMs \<noteq> 0
          then (let notYetActive = (startMs > now host)
                in post\<lparr>active := (if notYetActive then False else True)\<rparr>)
          else post)"

definition postsWithInactive :: "Host \<Rightarrow> PostObject list \<Rightarrow> PostObject list" where
  "postsWithInactive host postBuilder = map (tempPost host) postBuilder"

definition activePosts :: "Host \<Rightarrow> PostObject list \<Rightarrow> PostObject list" where
  "activePosts host postBuilder = filter active (postsWithInactive host postBuilder)"

definition removeInactivePosts :: "Host \<Rightarrow> PostObject Component \<Rightarrow> PostObject list \<Rightarrow> PostObject Outcome" where
  "removeInactivePosts host st postBuilder = removeDuplicatePosts st (activePosts host postBuilder)"

subsection \<open>buildPosts\<close>

text \<open>
  The \<^verbatim>\<open>reduce\<close> over the sorted topics; \<open>None\<close> when \<^verbatim>\<open>articles[current]\<close>
  is \<^verbatim>\<open>undefined\<close>, where reading \<^verbatim>\<open>.posts\<close> throws.
\<close>

fun postBuilder :: "'p KeywordObject list \<Rightarrow> 'p list \<Rightarrow> int list \<Rightarrow> 'p list option" where
  "postBuilder arts accumulator [] = Some accumulator"
| "postBuilder arts accumulator (current # rest) =
     (case lookupIndex arts current of
        None \<Rightarrow> None
      | Some a \<Rightarrow> postBuilder arts (accumulator @ posts a) rest)"

definition countActive :: "PostObject list \<Rightarrow> nat" where
  "countActive ps = foldl (\<lambda>accumulator post. accumulator + (if active post then 1 else 0)) 0 ps"

definition buildPosts ::
  "Host \<Rightarrow> PostObject InfoHubv3Props \<Rightarrow> PostObject Component \<Rightarrow> int list \<Rightarrow> PostObject Outcome" where
  "buildPosts host props st sortedFinalTopics =
     (case postBuilder (articles props) [] sortedFinalTopics of
        None \<Rightarrow> Threw TypeError st
      | Some pb \<Rightarrow>
          (let priorityWithArticles = priority props @ pb;
               st' = st\<lparr>activePriorityPosts := countActive (priority props)\<rparr>
           in removeInactivePosts host st' priorityWithArticles))"

subsection \<open>sortTopics\<close>

text \<open>
  The comparison function returns a boolean, which the sort reads as a number:
  \<^verbatim>\<open>true\<close> is 1 and \<^verbatim>\<open>false\<close> is 0.
\<close>

definition comparisonFunction :: "TopicAndPriority \<Rightarrow> TopicAndPriority \<Rightarrow> int" where
  "comparisonFunction a b = (if priorityTP a > priorityTP b then 1 else 0)"

definition unsortedTopics :: "'p KeywordObject list \<Rightarrow> int list \<Rightarrow> TopicAndPriority list option" where
  "unsortedTopics arts finalTopics =
     those (map (\<lambda>t. map_option (\<lambda>a. \<lparr>topicTP = t, priorityTP = topicType a\<rparr>)
                                 (lookupIndex arts t)) finalTopics)"

definition sortedFinalTopics :: "Host \<Rightarrow> TopicAndPriority list \<Rightarrow> int list" where
  "sortedFinalTopics host unsorted = map topicTP (arraySort host comparisonFunction unsorted)"

definition sortTopics ::
  "Host \<Rightarrow> PostObject InfoHubv3Props \<Rightarrow> PostObject Component \<Rightarrow> int list \<Rightarrow> PostObject Outcome" where
  "sortTopics host props st finalTopics =
     (case unsortedTopics (articles props) finalTopics of
        None \<Rightarrow> Threw TypeError st
      | Some unsorted \<Rightarrow> buildPosts host props st (sortedFinalTopics host unsorted))"

subsection \<open>searchCurrentURL\<close>

definition currentURL :: "Host \<Rightarrow> string" where
  "currentURL host = toLowerCase (pathname host @ search host)"

definition topicBuilder :: "string \<Rightarrow> KeywordInfoObject list \<Rightarrow> int list" where
  "topicBuilder u kl =
     filter (\<lambda>topicNumber. topicNumber \<noteq> - 1)
       (map (\<lambda>k. if includes_str u (keyword k) then topic k else - 1) kl)"

definition deviceOf :: "Host \<Rightarrow> Device" where
  "deviceOf host = (if innerWidth host \<ge> 1026 then desktop else mobile)"

definition searchCurrentURL ::
  "Host \<Rightarrow> PostObject InfoHubv3Props \<Rightarrow> PostObject Component \<Rightarrow> KeywordInfoObject list
     \<Rightarrow> PostObject Outcome" where
  "searchCurrentURL host props st kl =
     (if \<not> canUseDOM host then Returned st
      else let tb = topicBuilder (currentURL host) kl
           in if tb = [] then Returned (st\<lparr>loading := False\<rparr>)
              else (let finalTopics = spreadSet tb;
                        st' = st\<lparr>device := deviceOf host\<rparr>
                    in sortTopics host props st' finalTopics))"

subsection \<open>buildKeywordList, resetInfoHub, messageHandler\<close>

definition keywordList :: "'p KeywordObject list \<Rightarrow> KeywordInfoObject list" where
  "keywordList arts =
     concat (map (\<lambda>(index, article).
                    map (\<lambda>kw. \<lparr>keyword = toLowerCase kw, topic = int index\<rparr>)
                        (map editorItemTitle_S (keywords_K article)))
                 (enumerate 0 arts))"

definition buildKeywordList ::
  "Host \<Rightarrow> PostObject InfoHubv3Props \<Rightarrow> PostObject Component \<Rightarrow> PostObject Outcome" where
  "buildKeywordList host props st = searchCurrentURL host props st (keywordList (articles props))"

definition resetInfoHub ::
  "Host \<Rightarrow> PostObject InfoHubv3Props \<Rightarrow> PostObject Component \<Rightarrow> PostObject Outcome" where
  "resetInfoHub host props st = buildKeywordList host props (st\<lparr>loading := True, postsState := []\<rparr>)"

definition messageHandler ::
  "Host \<Rightarrow> PostObject InfoHubv3Props \<Rightarrow> string \<Rightarrow> PostObject Component \<Rightarrow> PostObject Outcome" where
  "messageHandler host props eventName st =
     (if \<not> showInfoHub host then Returned st
      else if eventName = ''ebs-infohub-run'' then resetInfoHub host props st
      else Returned st)"

subsection \<open>The render gate\<close>

text \<open>
  What the component body returns for a state: \<open>None\<close> is the empty fragment,
  \<open>Some ps\<close> the section that lists the posts \<open>ps\<close>.
\<close>

definition render :: "Host \<Rightarrow> 'p Component \<Rightarrow> 'p list option" where
  "render host st =
     (if \<not> showInfoHub host then None
      else if loading st then None
      else if postsState st = [] then None
      else if length (postsState st) = activePriorityPosts st then None
      else Some (postsState st))"

section \<open>The same stages over an object store\<close>

text \<open>
  Posts are objects: the configuration holds references to them, and so do the
  arrays the pipeline builds. To see which objects a run writes, the stages that
  touch posts are modelled a second time over a store, the list of all post
  objects by address. \<open>alloc\<close> is the object literal \<^verbatim>\<open>{ ...post }\<close>, which
  makes a new object; \<open>writeActive\<close> is the assignment to \<^verbatim>\<open>.active\<close>.
\<close>

type_synonym ref = nat

type_synonym store = "PostObject list"

definition alloc :: "store \<Rightarrow> PostObject \<Rightarrow> ref \<times> store" where
  "alloc h obj = (length h, h @ [obj])"

definition writeActive :: "store \<Rightarrow> ref \<Rightarrow> bool \<Rightarrow> store" where
  "writeActive h r b = h[r := (h ! r)\<lparr>active := b\<rparr>]"

text \<open>
  \<open>tempPost_store\<close> is the callback of the \<^verbatim>\<open>map\<close>: it makes the copy, writes
  to the copy and returns the reference to it. \<open>postsWithInactive_store\<close> runs
  it over the array from left to right.
\<close>

definition tempPost_store :: "Host \<Rightarrow> store \<Rightarrow> ref \<Rightarrow> ref \<times> store" where
  "tempPost_store host h p =
     (let (tempPostRef, h1) = alloc h (h ! p)
      in case dateParse host (startDate (h1 ! p)) of
           None \<Rightarrow> (tempPostRef, h1)
         | Some startMs \<Rightarrow>
             if startMs \<noteq> 0
             then (let notYetActive = (startMs > now host)
                   in (tempPostRef,
                       writeActive h1 tempPostRef (if notYetActive then False else True)))
             else (tempPostRef, h1))"

fun postsWithInactive_store :: "Host \<Rightarrow> store \<Rightarrow> ref list \<Rightarrow> store \<times> ref list" where
  "postsWithInactive_store host h [] = (h, [])"
| "postsWithInactive_store host h (p # rest) =
     (let (tempPostRef, h1) = tempPost_store host h p;
          (h2, out) = postsWithInactive_store host h1 rest
      in (h2, tempPostRef # out))"

definition activePosts_store :: "Host \<Rightarrow> store \<Rightarrow> ref list \<Rightarrow> store \<times> ref list" where
  "activePosts_store host h postRefs =
     (let (h', withInactive) = postsWithInactive_store host h postRefs
      in (h', filter (\<lambda>post. active (h' ! post)) withInactive))"

definition uniquePosts_store :: "store \<Rightarrow> ref list \<Rightarrow> ref list" where
  "uniquePosts_store h activeRefs =
     map snd (foldl (\<lambda>m post. Map_set m (editorItemTitle (h ! post)) post) [] activeRefs)"

definition countActive_store :: "store \<Rightarrow> ref list \<Rightarrow> nat" where
  "countActive_store h ps =
     foldl (\<lambda>accumulator post. accumulator + (if active (h ! post) then 1 else 0)) 0 ps"

definition removeDuplicatePosts_store :: "store \<times> ref Component \<Rightarrow> ref list \<Rightarrow> store \<times> ref Outcome" where
  "removeDuplicatePosts_store hs activeRefs =
     (fst hs, buildRender (snd hs) (uniquePosts_store (fst hs) activeRefs))"

definition removeInactivePosts_store ::
  "Host \<Rightarrow> store \<times> ref Component \<Rightarrow> ref list \<Rightarrow> store \<times> ref Outcome" where
  "removeInactivePosts_store host hs postRefs =
     (let (h', act) = activePosts_store host (fst hs) postRefs
      in removeDuplicatePosts_store (h', snd hs) act)"

definition buildPosts_store ::
  "Host \<Rightarrow> ref InfoHubv3Props \<Rightarrow> store \<times> ref Component \<Rightarrow> int list \<Rightarrow> store \<times> ref Outcome" where
  "buildPosts_store host props hs sortedTopics =
     (case postBuilder (articles props) [] sortedTopics of
        None \<Rightarrow> (fst hs, Threw TypeError (snd hs))
      | Some pb \<Rightarrow>
          (let priorityWithArticles = priority props @ pb;
               st' = (snd hs)\<lparr>activePriorityPosts := countActive_store (fst hs) (priority props)\<rparr>
           in removeInactivePosts_store host (fst hs, st') priorityWithArticles))"

definition sortTopics_store ::
  "Host \<Rightarrow> ref InfoHubv3Props \<Rightarrow> store \<times> ref Component \<Rightarrow> int list \<Rightarrow> store \<times> ref Outcome" where
  "sortTopics_store host props hs finalTopics =
     (case unsortedTopics (articles props) finalTopics of
        None \<Rightarrow> (fst hs, Threw TypeError (snd hs))
      | Some unsorted \<Rightarrow> buildPosts_store host props hs (sortedFinalTopics host unsorted))"

definition searchCurrentURL_store ::
  "Host \<Rightarrow> ref InfoHubv3Props \<Rightarrow> store \<times> ref Component \<Rightarrow> KeywordInfoObject list
     \<Rightarrow> store \<times> ref Outcome" where
  "searchCurrentURL_store host props hs kl =
     (if \<not> canUseDOM host then (fst hs, Returned (snd hs))
      else let tb = topicBuilder (currentURL host) kl
           in if tb = [] then (fst hs, Returned ((snd hs)\<lparr>loading := False\<rparr>))
              else (let finalTopics = spreadSet tb;
                        st' = (snd hs)\<lparr>device := deviceOf host\<rparr>
                    in sortTopics_store host props (fst hs, st') finalTopics))"

definition buildKeywordList_store ::
  "Host \<Rightarrow> ref InfoHubv3Props \<Rightarrow> store \<times> ref Component \<Rightarrow> store \<times> ref Outcome" where
  "buildKeywordList_store host props hs =
     searchCurrentURL_store host props hs (keywordList (articles props))"

definition resetInfoHub_store ::
  "Host \<Rightarrow> ref InfoHubv3Props \<Rightarrow> store \<times> ref Component \<Rightarrow> store \<times> ref Outcome" where
  "resetInfoHub_store host props hs =
     buildKeywordList_store host props (fst hs, (snd hs)\<lparr>loading := True, postsState := []\<rparr>)"

definition messageHandler_store ::
  "Host \<Rightarrow> ref InfoHubv3Props \<Rightarrow> string \<Rightarrow> store \<times> ref Component \<Rightarrow> store \<times> ref Outcome" where
  "messageHandler_store host props eventName hs =
     (if \<not> showInfoHub host then (fst hs, Returned (snd hs))
      else if eventName = ''ebs-infohub-run'' then resetInfoHub_store host props hs
      else (fst hs, Returned (snd hs)))"

text \<open>Reading a configuration, a state and an outcome through the store.\<close>

definition derefTopic :: "store \<Rightarrow> ref KeywordObject \<Rightarrow> PostObject KeywordObject" where
  "derefTopic h a =
     \<lparr>editorItemTitle_K = editorItemTitle_K a, keywords_K = keywords_K a,
      topicType = topicType a, posts = map ((!) h) (posts a)\<rparr>"

definition derefProps :: "store \<Rightarrow> ref InfoHubv3Props \<Rightarrow> PostObject InfoHubv3Props" where
  "derefProps h props =
     \<lparr>titleText = titleText props, articles = map (derefTopic h) (articles props),
      priority = map ((!) h) (priority props)\<rparr>"

definition derefComponent :: "store \<Rightarrow> ref Component \<Rightarrow> PostObject Component" where
  "derefComponent h st =
     \<lparr>loading = loading st, postsState = map ((!) h) (postsState st),
      device = device st, activePriorityPosts = activePriorityPosts st\<rparr>"

fun derefOutcome :: "store \<Rightarrow> ref Outcome \<Rightarrow> PostObject Outcome" where
  "derefOutcome h (Returned st) = Returned (derefComponent h st)"
| "derefOutcome h (Threw e st) = Threw e (derefComponent h st)"

definition validProps :: "store \<Rightarrow> ref InfoHubv3Props \<Rightarrow> bool" where
  "validProps h props =
     ((\<forall>r \<in> set (priority props). r < length h) \<and>
      (\<forall>a \<in> set (articles props). \<forall>r \<in> set (posts a). r < length h))"

section \<open>Sample hosts\<close>

text \<open>
  A host for the worked examples. Its \<^verbatim>\<open>Date.parse\<close> knows the date strings
  of the examples (midnight UTC, in milliseconds) and takes every other string
  as unparseable; its \<^verbatim>\<open>URLSearchParams\<close> reads a query string without
  percent escapes; its sort is the one of V8 on an array of fewer than 64
  elements, which is a single run: \<open>countAndMakeRun\<close> finds the longest
  ascending or strictly descending prefix (reversing it when descending) and
  \<open>binaryInsertionSort\<close> inserts the remaining elements one by one.
\<close>

definition sampleDateParse :: "string \<Rightarrow> int option" where
  "sampleDateParse s =
     map_of [(''1970-01-01'', 0), (''2020-01-01'', 1577836800000),
             (''2999-01-01'', 32472144000000)] s"

fun splitOn :: "char \<Rightarrow> string \<Rightarrow> string list" where
  "splitOn c [] = [[]]"
| "splitOn c (x # xs) =
     (if x = c then [] # splitOn c xs
      else (case splitOn c xs of [] \<Rightarrow> [[x]] | w # ws \<Rightarrow> (x # w) # ws))"

definition paramPair :: "string \<Rightarrow> string \<times> string" where
  "paramPair s = (takeWhile (\<lambda>c. c \<noteq> CHR ''='') s, drop 1 (dropWhile (\<lambda>c. c \<noteq> CHR ''='') s))"

definition plainParamsGet :: "string \<Rightarrow> string \<Rightarrow> string option" where
  "plainParamsGet s n =
     map_of (map paramPair (filter (\<lambda>w. w \<noteq> [])
               (splitOn (CHR ''&'') (case s of [] \<Rightarrow> [] | c # r \<Rightarrow> if c = CHR ''?'' then r else s)))) n"

fun runLength :: "('a \<Rightarrow> 'a \<Rightarrow> int) \<Rightarrow> bool \<Rightarrow> 'a \<Rightarrow> 'a list \<Rightarrow> nat" where
  "runLength cmp isDescending previousElement [] = 0"
| "runLength cmp isDescending previousElement (currentElement # rest) =
     (let order = cmp currentElement previousElement
      in if (if isDescending then order \<ge> 0 else order < 0) then 0
         else Suc (runLength cmp isDescending currentElement rest))"

fun countAndMakeRun :: "('a \<Rightarrow> 'a \<Rightarrow> int) \<Rightarrow> 'a list \<Rightarrow> nat \<times> 'a list" where
  "countAndMakeRun cmp [] = (0, [])"
| "countAndMakeRun cmp [x] = (1, [x])"
| "countAndMakeRun cmp (elementHigh # elementLow # rest) =
     (let isDescending = (cmp elementLow elementHigh < 0);
          n = 2 + runLength cmp isDescending elementLow rest;
          work = elementHigh # elementLow # rest
      in (n, if isDescending then rev (take n work) @ drop n work else work))"

function binarySearchLeft :: "('a \<Rightarrow> 'a \<Rightarrow> int) \<Rightarrow> 'a \<Rightarrow> 'a list \<Rightarrow> nat \<Rightarrow> nat \<Rightarrow> nat" where
  "binarySearchLeft cmp pivot work left right =
     (if left < right
      then (if cmp pivot (work ! (left + (right - left) div 2)) < 0
            then binarySearchLeft cmp pivot work left (left + (right - left) div 2)
            else binarySearchLeft cmp pivot work (left + (right - left) div 2 + 1) right)
      else left)"
  by pat_completeness auto
termination
  by (relation "measure (\<lambda>(cmp, pivot, work, left, right). right - left)") simp_all

declare binarySearchLeft.simps [simp del]

fun binaryInsertionSort :: "('a \<Rightarrow> 'a \<Rightarrow> int) \<Rightarrow> 'a list \<Rightarrow> 'a list \<Rightarrow> 'a list" where
  "binaryInsertionSort cmp done_part [] = done_part"
| "binaryInsertionSort cmp done_part (pivot # rest) =
     (let left = binarySearchLeft cmp pivot done_part 0 (length done_part)
      in binaryInsertionSort cmp (take left done_part @ pivot # drop left done_part) rest)"

definition timSortShort :: "('a \<Rightarrow> 'a \<Rightarrow> int) \<Rightarrow> 'a list \<Rightarrow> 'a list" where
  "timSortShort cmp xs =
     (let (n, work) = countAndMakeRun cmp xs
      in binaryInsertionSort cmp (take n work) (drop n work))"

definition sampleHost :: "string \<Rightarrow> string \<Rightarrow> int \<Rightarrow> int \<Rightarrow> Host" where
  "sampleHost path query width time =
     \<lparr>canUseDOM = True, pathname = path, search = query, searchParamsGet = plainParamsGet,
      innerWidth = width, now = time, dateParse = sampleDateParse, arraySort = timSortShort\<rparr>"

definition mkPost :: "string \<Rightarrow> bool \<Rightarrow> string \<Rightarrow> string \<Rightarrow> PostObject" where
  "mkPost date act ttl link =
     \<lparr>startDate = date, active = act, editorItemTitle = ttl, image_P = [], url = link\<rparr>"

definition mkTopic :: "int \<Rightarrow> string list \<Rightarrow> 'p list \<Rightarrow> 'p KeywordObject" where
  "mkTopic tier kws ps =
     \<lparr>editorItemTitle_K = [], keywords_K = map (\<lambda>k. \<lparr>editorItemTitle_S = k\<rparr>) kws,
      topicType = tier, posts = ps\<rparr>"

section \<open>Facts about the host functions\<close>

lemma timSortShort_runLength:
  "(\<And>a b. 0 \<le> cmp a b) \<Longrightarrow> runLength cmp False prev xs = length xs"
  by (induction xs arbitrary: prev) (simp_all add: Let_def not_less)

text \<open>
  A comparison function that never answers with a negative number makes the
  whole array one ascending run, and the sort leaves it as it is.
\<close>

lemma timSortShort_no_negative:
  assumes "\<And>a b. 0 \<le> cmp a b"
  shows "timSortShort cmp xs = xs"
proof (cases xs)
  case Nil
  then show ?thesis by (simp add: timSortShort_def)
next
  case (Cons hi tl)
  show ?thesis
  proof (cases tl)
    case Nil
    with Cons show ?thesis by (simp add: timSortShort_def)
  next
    case (Cons lo rest)
    have nn: "\<not> cmp lo hi < 0"
      using assms [of lo hi] by simp
    have rl: "runLength cmp False lo rest = length rest"
      using assms by (rule timSortShort_runLength)
    from \<open>xs = hi # tl\<close> Cons show ?thesis
      by (simp add: timSortShort_def Let_def nn rl)
  qed
qed

lemma comparisonFunction_nonneg: "0 \<le> comparisonFunction a b"
  by (simp add: comparisonFunction_def)

lemma sampleHost_sort:
  "arraySort (sampleHost p q w t) comparisonFunction xs = xs"
  by (simp add: sampleHost_def timSortShort_no_negative comparisonFunction_nonneg)

section \<open>The activation step\<close>

text \<open>
  What the step does to the flag, for every post: without a start date that
  parses to a non-zero number the flag stays; with one, the flag becomes
  "the start date is not after now", whatever it was.
\<close>

lemma tempPost_active:
  "active (tempPost host p) =
     (case dateParse host (startDate p) of
        None \<Rightarrow> active p
      | Some t \<Rightarrow> if t = 0 then active p else t \<le> now host)"
  by (simp add: tempPost_def split: option.splits)

text \<open>
  C1. The claim: the activation step drops a post exactly when its \<open>active\<close>
  flag is false or its start date is a valid instant after now, so a post with
  \<open>active = false\<close> is always dropped. The code overwrites the flag with
  \<open>true\<close> whenever the start date parses to a non-zero instant that is not
  in the future: a post the editor has hidden (\<open>active = false\<close>) whose start
  date is 1 January 2020 is kept at an evaluation time in 2023, and leaves the
  step with \<open>active = true\<close>.
\<close>

theorem hidden_post_with_past_date_is_kept:
  "activePosts (sampleHost ''/'' [] 1200 1700000000000)
     [mkPost ''2020-01-01'' False ''Clearance'' ''/clearance'']
   = [mkPost ''2020-01-01'' True ''Clearance'' ''/clearance'']"
  by (simp add: activePosts_def postsWithInactive_def tempPost_def sampleHost_def
      sampleDateParse_def mkPost_def)

text \<open>
  C10. A start date that parses to the epoch instant, the number 0, is falsy:
  the scheduling branch is skipped as it is for an unparseable date, the post
  passes the step unchanged exactly when its own flag is set, wherever it stands
  in the list and at every evaluation time. Every other start date that is valid
  and not in the future puts the post through with \<open>active = true\<close> whatever
  its flag was. So among the valid start dates that are not in the future, 0 is
  the only one for which the result of the step depends on the flag.
\<close>

theorem epoch_start_leaves_flag:
  "(dateParse host (startDate p) = Some 0 \<longrightarrow>
      tempPost host p = p
      \<and> activePosts host (xs @ p # ys)
          = activePosts host xs @ (if active p then [p] else []) @ activePosts host ys)
   \<and> (dateParse host (startDate p) = None \<longrightarrow>
      tempPost host p = p
      \<and> activePosts host (xs @ p # ys)
          = activePosts host xs @ (if active p then [p] else []) @ activePosts host ys)
   \<and> (\<forall>t. dateParse host (startDate p) = Some t \<and> t \<noteq> 0 \<and> t \<le> now host \<longrightarrow>
          activePosts host (xs @ p # ys)
            = activePosts host xs @ [p\<lparr>active := True\<rparr>] @ activePosts host ys)
   \<and> (\<forall>t. dateParse host (startDate p) = Some t \<and> t \<le> now host \<longrightarrow>
          active (tempPost host p) = (if t = 0 then active p else True)
          \<and> ((activePosts host (xs @ p\<lparr>active := True\<rparr> # ys)
                = activePosts host (xs @ p\<lparr>active := False\<rparr> # ys)) \<longleftrightarrow> t \<noteq> 0))"
  by (auto simp: tempPost_def activePosts_def postsWithInactive_def)

theorem epoch_start_leaves_flag_witness:
  "dateParse (sampleHost ''/'' [] 1200 1700000000000)
       (startDate (mkPost ''1970-01-01'' False ''Archive'' ''/a'')) = Some 0
   \<and> activePosts (sampleHost ''/'' [] 1200 1700000000000)
       ([mkPost [] True ''Guide'' ''/g''] @ mkPost ''1970-01-01'' False ''Archive'' ''/a''
          # [mkPost ''2020-01-01'' False ''Clearance'' ''/c''])
       = [mkPost [] True ''Guide'' ''/g'', mkPost ''2020-01-01'' True ''Clearance'' ''/c'']
   \<and> dateParse (sampleHost ''/'' [] 1200 1700000000000)
       (startDate (mkPost ''2020-01-01'' False ''Clearance'' ''/c'')) = Some 1577836800000
   \<and> (1577836800000::int) \<le> now (sampleHost ''/'' [] 1200 1700000000000)
   \<and> activePosts (sampleHost ''/'' [] 1200 1700000000000)
       ([mkPost [] True ''Guide'' ''/g''] @ mkPost ''2020-01-01'' False ''Clearance'' ''/c'' # [])
       = [mkPost [] True ''Guide'' ''/g'', mkPost ''2020-01-01'' True ''Clearance'' ''/c'']
   \<and> active (tempPost (sampleHost ''/'' [] 1200 1700000000000)
         (mkPost ''2020-01-01'' False ''Clearance'' ''/c''))"
proof -
  let ?H = "sampleHost ''/'' [] 1200 1700000000000"
  let ?U = "mkPost [] True ''Guide'' ''/g''"
  let ?P0 = "mkPost ''1970-01-01'' False ''Archive'' ''/a''"
  let ?P20 = "mkPost ''2020-01-01'' False ''Clearance'' ''/c''"
  let ?P20' = "mkPost ''2020-01-01'' True ''Clearance'' ''/c''"
  note t0 = epoch_start_leaves_flag [of ?H ?P0 "[?U]" "[?P20]"]
  note t20 = epoch_start_leaves_flag [of ?H ?P20 "[?U]" "[]"]
  have d0: "dateParse ?H (startDate ?P0) = Some 0" by code_simp
  have d20: "dateParse ?H (startDate ?P20) = Some 1577836800000" by code_simp
  have n: "(1577836800000::int) \<le> now ?H" by code_simp
  have a0: "activePosts ?H ([?U] @ ?P0 # [?P20])
              = activePosts ?H [?U] @ (if active ?P0 then [?P0] else []) @ activePosts ?H [?P20]"
    by (rule conjunct2 [OF mp [OF conjunct1 [OF t0] d0]])
  have e0: "activePosts ?H [?U] @ (if active ?P0 then [?P0] else []) @ activePosts ?H [?P20]
              = [?U, ?P20']"
    by code_simp
  have p20: "dateParse ?H (startDate ?P20) = Some 1577836800000 \<and> (1577836800000::int) \<noteq> 0
               \<and> 1577836800000 \<le> now ?H"
    using d20 n by simp
  have a20: "activePosts ?H ([?U] @ ?P20 # [])
               = activePosts ?H [?U] @ [?P20\<lparr>active := True\<rparr>] @ activePosts ?H []"
    by (rule mp [OF spec [OF conjunct1 [OF conjunct2 [OF conjunct2 [OF t20]]]] p20])
  have e20: "activePosts ?H [?U] @ [?P20\<lparr>active := True\<rparr>] @ activePosts ?H [] = [?U, ?P20']"
    by code_simp
  have q20: "dateParse ?H (startDate ?P20) = Some 1577836800000 \<and> 1577836800000 \<le> now ?H"
    using d20 n by simp
  have f20: "active (tempPost ?H ?P20) = (if (1577836800000::int) = 0 then active ?P20 else True)"
    by (rule conjunct1 [OF mp [OF spec [OF conjunct2 [OF conjunct2 [OF conjunct2 [OF t20]]]] q20]])
  then have g20: "active (tempPost ?H ?P20)" by simp
  from d0 a0 [unfolded e0] d20 n a20 [unfolded e20] g20 show ?thesis by (intro conjI)
qed

section \<open>The opt-out switch and the render gate\<close>

text \<open>
  C8. When \<^verbatim>\<open>URLSearchParams.get("ih")\<close> on the query string of the page is
  \<^verbatim>\<open>"0"\<close>, the component body returns the empty fragment for every state,
  on every render and so also on the first one, and the message handler leaves
  the state as it is for every event, the trigger included.
\<close>

theorem opt_out_flag:
  assumes "searchParamsGet host (search host) ''ih'' = Some ''0''"
  shows "render host st = None \<and> messageHandler host props e st = Returned st"
  using assms by (simp add: render_def messageHandler_def showInfoHub_def)

theorem opt_out_flag_witness:
  "searchParamsGet (sampleHost ''/products/b17-saddle'' ''?ih=0'' 1200 1700000000000)
       (search (sampleHost ''/products/b17-saddle'' ''?ih=0'' 1200 1700000000000)) ''ih'' = Some ''0''
   \<and> render (sampleHost ''/products/b17-saddle'' ''?ih=0'' 1200 1700000000000)
        \<lparr>loading = False, postsState = [mkPost [] True ''B17'' ''/b17''], device = desktop,
         activePriorityPosts = 0\<rparr> = None
   \<and> messageHandler (sampleHost ''/products/b17-saddle'' ''?ih=0'' 1200 1700000000000)
        \<lparr>titleText = [], articles = [mkTopic 0 [''saddle''] [mkPost [] True ''B17'' ''/b17'']],
         priority = []\<rparr>
        ''ebs-infohub-run'' initialComponent = Returned initialComponent
   \<and> render (sampleHost ''/products/b17-saddle'' ''?ih=1'' 1200 1700000000000)
        \<lparr>loading = False, postsState = [mkPost [] True ''B17'' ''/b17''], device = desktop,
         activePriorityPosts = 0\<rparr> = Some [mkPost [] True ''B17'' ''/b17'']"
  using opt_out_flag [of "sampleHost ''/products/b17-saddle'' ''?ih=0'' 1200 1700000000000"
      "\<lparr>loading = False, postsState = [mkPost [] True ''B17'' ''/b17''], device = desktop,
         activePriorityPosts = 0\<rparr>"
      "\<lparr>titleText = [], articles = [mkTopic 0 [''saddle''] [mkPost [] True ''B17'' ''/b17'']],
         priority = []\<rparr>" "''ebs-infohub-run''"]
    opt_out_flag [of "sampleHost ''/products/b17-saddle'' ''?ih=0'' 1200 1700000000000"
      initialComponent
      "\<lparr>titleText = [], articles = [mkTopic 0 [''saddle''] [mkPost [] True ''B17'' ''/b17'']],
         priority = []\<rparr>" "''ebs-infohub-run''"]
  by (simp add: sampleHost_def plainParamsGet_def paramPair_def render_def showInfoHub_def)

text \<open>
  C3. The claim: the widget renders nothing exactly when no keyword matched, or
  the assembled list is empty, or its length equals the number of pinned posts
  that survived the activation step. The code counts the pinned posts whose
  \<open>active\<close> flag is set in the configuration, before the activation step has
  looked at any start date. With one pinned post that is flagged active and
  scheduled for the year 2999, and one matched topic with one post, the assembled
  list is the topic's post alone and no pinned post survives the activation step,
  yet the count is 1 and the widget renders nothing.
\<close>

theorem organic_post_hidden_by_scheduled_pinned_post:
  "stateOf (messageHandler (sampleHost ''/products/b17-saddle'' ''?x=1'' 1200 1700000000000)
      \<lparr>titleText = [],
       articles = [mkTopic 0 [''saddle''] [mkPost [] True ''B17'' ''/b17'']],
       priority = [mkPost ''2999-01-01'' True ''Sale'' ''/sale'']\<rparr>
      ''ebs-infohub-run'' initialComponent)
   = \<lparr>loading = False, postsState = [mkPost [] True ''B17'' ''/b17''], device = desktop,
      activePriorityPosts = 1\<rparr>
   \<and> render (sampleHost ''/products/b17-saddle'' ''?x=1'' 1200 1700000000000)
      \<lparr>loading = False, postsState = [mkPost [] True ''B17'' ''/b17''], device = desktop,
       activePriorityPosts = 1\<rparr> = None
   \<and> activePosts (sampleHost ''/products/b17-saddle'' ''?x=1'' 1200 1700000000000)
      [mkPost ''2999-01-01'' True ''Sale'' ''/sale''] = []"
  by code_simp

section \<open>The order of the topics\<close>

text \<open>
  C4. The claim: after the pinned posts, the posts come grouped by topic with
  the topics in ascending tier. The comparison function answers 1 or 0, never a
  negative number, so on a host whose sort moves an element only on a negative
  answer the topics stay in the order in which the matcher found them. Here the
  topic of tier 2 is configured before the topic of tier 0, both match the page,
  and the post of the tier 2 topic comes first.
\<close>

theorem tier_order_not_established:
  "messageHandler (sampleHost ''/products/B17-Saddle'' ''?x=1'' 1200 1700000000000)
     \<lparr>titleText = [],
      articles = [mkTopic 2 [''SADDLE''] [mkPost [] True ''Guide'' ''/guide''],
                  mkTopic 0 [''b17''] [mkPost [] True ''B17'' ''/b17'']],
      priority = []\<rparr>
     ''ebs-infohub-run'' initialComponent
   = Returned \<lparr>loading = False,
        postsState = [mkPost [] True ''Guide'' ''/guide'', mkPost [] True ''B17'' ''/b17''],
        device = desktop, activePriorityPosts = 0\<rparr>"
  by code_simp

section \<open>Deduplication\<close>

lemma spreadSet_snoc: "spreadSet (xs @ [x]) = Set_add (spreadSet xs) x"
  by (simp add: spreadSet_def)

lemma spreadSet_first_occurrences: "spreadSet xs = rev (remdups (rev xs))"
  by (induction xs rule: rev_induct) (simp_all add: spreadSet_snoc Set_add_def, simp add: spreadSet_def)

lemma set_spreadSet: "set (spreadSet xs) = set xs"
  by (simp add: spreadSet_first_occurrences)

lemma distinct_spreadSet: "distinct (spreadSet xs)"
  by (simp add: spreadSet_first_occurrences)

lemma Map_set_new:
  "k \<notin> set ks \<Longrightarrow> Map_set (map (\<lambda>t. (t, f t)) ks) k v = map (\<lambda>t. (t, f t)) ks @ [(k, v)]"
  by (induction ks) auto

lemma Map_set_present:
  "k \<in> set ks \<Longrightarrow> distinct ks \<Longrightarrow>
   Map_set (map (\<lambda>t. (t, f t)) ks) k v = map (\<lambda>t. (t, if t = k then v else f t)) ks"
  by (induction ks) auto

lemma postMap_snoc: "postMap (xs @ [x]) = Map_set (postMap xs) (editorItemTitle x) x"
  by (simp add: postMap_def)

lemma postMap_entries:
  "postMap xs =
     map (\<lambda>t. (t, last (filter (\<lambda>q. editorItemTitle q = t) xs))) (spreadSet (map editorItemTitle xs))"
proof (induction xs rule: rev_induct)
  case Nil
  show ?case by (simp add: postMap_def spreadSet_def)
next
  case (snoc x xs)
  let ?k = "editorItemTitle x"
  let ?ks = "spreadSet (map editorItemTitle xs)"
  let ?f = "\<lambda>t. last (filter (\<lambda>q. editorItemTitle q = t) xs)"
  show ?case
  proof (cases "?k \<in> set ?ks")
    case True
    have "postMap (xs @ [x]) = map (\<lambda>t. (t, if t = ?k then x else ?f t)) ?ks"
      using True distinct_spreadSet [of "map editorItemTitle xs"]
      by (simp add: postMap_snoc snoc.IH Map_set_present)
    moreover have "spreadSet (map editorItemTitle (xs @ [x])) = ?ks"
      using True by (simp add: spreadSet_snoc Set_add_def)
    ultimately show ?thesis by auto
  next
    case False
    have "postMap (xs @ [x]) = map (\<lambda>t. (t, ?f t)) ?ks @ [(?k, x)]"
      using False by (simp add: postMap_snoc snoc.IH Map_set_new)
    moreover have "spreadSet (map editorItemTitle (xs @ [x])) = ?ks @ [?k]"
      using False by (simp add: spreadSet_snoc Set_add_def)
    ultimately show ?thesis using False by auto
  qed
qed

lemma title_of_last_with_title:
  assumes "t \<in> set (map editorItemTitle xs)"
  shows "editorItemTitle (last (filter (\<lambda>q. editorItemTitle q = t) xs)) = t"
proof -
  from assms have ne: "filter (\<lambda>q. editorItemTitle q = t) xs \<noteq> []"
    by (auto simp: filter_empty_conv)
  then have "last (filter (\<lambda>q. editorItemTitle q = t) xs) \<in> set (filter (\<lambda>q. editorItemTitle q = t) xs)"
    by (rule last_in_set)
  then show ?thesis by simp
qed

text \<open>
  What the map leaves, for every list: one post per distinct title, the titles
  in the order of their first occurrences, and for each title the last post of
  the list that has it.
\<close>

lemma dedup_first_place_last_fields:
  "uniquePosts xs =
     map (\<lambda>t. last (filter (\<lambda>q. editorItemTitle q = t) xs)) (rev (remdups (rev (map editorItemTitle xs))))
   \<and> map editorItemTitle (uniquePosts xs) = rev (remdups (rev (map editorItemTitle xs)))"
proof -
  let ?ks = "spreadSet (map editorItemTitle xs)"
  have a: "uniquePosts xs = map (\<lambda>t. last (filter (\<lambda>q. editorItemTitle q = t) xs)) ?ks"
    by (simp add: uniquePosts_def postMap_entries o_def)
  have "map editorItemTitle (uniquePosts xs) = map (\<lambda>t. t) ?ks"
    unfolding a map_map o_def
    by (rule map_cong [OF refl]) (simp only: set_spreadSet title_of_last_with_title)
  then have b: "map editorItemTitle (uniquePosts xs) = ?ks" by simp
  from a b show ?thesis by (simp add: spreadSet_first_occurrences)
qed


text \<open>
  C2. The claim: deduplication keeps the first occurrence of each title and
  drops every later one, so that a pinned post wins over a topic post with the
  same title, with all of its fields. The code stores every post in a map under
  its title, and a later post with the same title replaces the stored one. With
  the pinned post \<open>X\<close> that links to \<open>/pinned\<close> and a topic post \<open>X\<close>
  that links to \<open>/topic\<close>, the one survivor links to \<open>/topic\<close>; in a
  whole run it is rendered in the pinned post's place.
\<close>

theorem dedup_keeps_later_fields:
  "uniquePosts [mkPost [] True ''X'' ''/pinned'', mkPost [] True ''X'' ''/topic'']
     = [mkPost [] True ''X'' ''/topic'']
   \<and> uniquePosts [mkPost [] True ''X'' ''/pinned'', mkPost [] True ''X'' ''/topic'']
     \<noteq> [mkPost [] True ''X'' ''/pinned'']
   \<and> stateOf (messageHandler (sampleHost ''/shop/saddles'' [] 1200 1700000000000)
        \<lparr>titleText = [],
         articles = [mkTopic 0 [''saddle'']
            [mkPost [] True ''X'' ''/topic'', mkPost [] True ''Y'' ''/y'']],
         priority = [mkPost [] True ''X'' ''/pinned'']\<rparr>
        ''ebs-infohub-run'' initialComponent)
     = \<lparr>loading = False,
        postsState = [mkPost [] True ''X'' ''/topic'', mkPost [] True ''Y'' ''/y''],
        device = desktop, activePriorityPosts = 1\<rparr>
   \<and> render (sampleHost ''/shop/saddles'' [] 1200 1700000000000)
       \<lparr>loading = False,
        postsState = [mkPost [] True ''X'' ''/topic'', mkPost [] True ''Y'' ''/y''],
        device = desktop, activePriorityPosts = 1\<rparr>
     = Some [mkPost [] True ''X'' ''/topic'', mkPost [] True ''Y'' ''/y'']"
  by code_simp

section \<open>Matching keywords against the address of the page\<close>

lemma includes_str_sublist: "includes_str s k = sublist k s"
  by (induction s) (simp_all add: sublist_Cons_right)

lemma keywordList_mem:
  "k \<in> set (keywordList arts) \<longleftrightarrow>
     (\<exists>i kw. i < length arts \<and> kw \<in> set (keywords_K (arts ! i)) \<and>
        k = \<lparr>keyword = toLowerCase (editorItemTitle_S kw), topic = int i\<rparr>)"
proof
  assume "k \<in> set (keywordList arts)"
  then obtain p where p: "p \<in> set (enumerate 0 arts)"
    and k: "k \<in> (\<lambda>kw. \<lparr>keyword = toLowerCase (editorItemTitle_S kw), topic = int (fst p)\<rparr>)
               ` set (keywords_K (snd p))"
    by (auto simp: keywordList_def)
  from p have "fst p < length arts" and "arts ! fst p = snd p"
    by (simp_all add: in_set_enumerate_eq)
  moreover from k obtain kw where "kw \<in> set (keywords_K (snd p))"
    and "k = \<lparr>keyword = toLowerCase (editorItemTitle_S kw), topic = int (fst p)\<rparr>"
    by blast
  ultimately show "\<exists>i kw. i < length arts \<and> kw \<in> set (keywords_K (arts ! i)) \<and>
        k = \<lparr>keyword = toLowerCase (editorItemTitle_S kw), topic = int i\<rparr>"
    by metis
next
  assume "\<exists>i kw. i < length arts \<and> kw \<in> set (keywords_K (arts ! i)) \<and>
        k = \<lparr>keyword = toLowerCase (editorItemTitle_S kw), topic = int i\<rparr>"
  then obtain i kw where i: "i < length arts" and kw: "kw \<in> set (keywords_K (arts ! i))"
    and k: "k = \<lparr>keyword = toLowerCase (editorItemTitle_S kw), topic = int i\<rparr>"
    by blast
  from i have "(i, arts ! i) \<in> set (enumerate 0 arts)"
    by (simp add: in_set_enumerate_eq)
  with kw k show "k \<in> set (keywordList arts)"
    by (force simp: keywordList_def)
qed

lemma topicBuilder_mem:
  "t \<in> set (topicBuilder u kl) \<longleftrightarrow>
     (\<exists>k \<in> set kl. includes_str u (keyword k) \<and> topic k = t \<and> t \<noteq> - 1)"
  by (auto simp: topicBuilder_def)

lemma matched_topics:
  "(t \<in> set (spreadSet (topicBuilder u (keywordList arts)))) =
     (\<exists>i<length arts. t = int i \<and>
        (\<exists>kw \<in> set (keywords_K (arts ! i)). sublist (toLowerCase (editorItemTitle_S kw)) u))"
proof
  assume "t \<in> set (spreadSet (topicBuilder u (keywordList arts)))"
  then obtain k where k: "k \<in> set (keywordList arts)" and inc: "includes_str u (keyword k)"
    and t: "topic k = t"
    by (auto simp: set_spreadSet topicBuilder_mem)
  from k obtain i kw where "i < length arts" "kw \<in> set (keywords_K (arts ! i))"
    "k = \<lparr>keyword = toLowerCase (editorItemTitle_S kw), topic = int i\<rparr>"
    by (auto simp: keywordList_mem)
  with inc t show "\<exists>i<length arts. t = int i \<and>
        (\<exists>kw \<in> set (keywords_K (arts ! i)). sublist (toLowerCase (editorItemTitle_S kw)) u)"
    by (auto simp: includes_str_sublist)
next
  assume "\<exists>i<length arts. t = int i \<and>
        (\<exists>kw \<in> set (keywords_K (arts ! i)). sublist (toLowerCase (editorItemTitle_S kw)) u)"
  then obtain i kw where i: "i < length arts" and t: "t = int i"
    and kw: "kw \<in> set (keywords_K (arts ! i))"
    and sub: "sublist (toLowerCase (editorItemTitle_S kw)) u"
    by blast
  let ?k = "\<lparr>keyword = toLowerCase (editorItemTitle_S kw), topic = int i\<rparr>"
  from i kw have "?k \<in> set (keywordList arts)"
    by (auto simp: keywordList_mem)
  moreover from sub have "includes_str u (keyword ?k)"
    by (simp add: includes_str_sublist)
  moreover from t have "topic ?k = t" and "t \<noteq> - 1" by simp_all
  ultimately have "t \<in> set (topicBuilder u (keywordList arts))"
    unfolding topicBuilder_mem by blast
  then show "t \<in> set (spreadSet (topicBuilder u (keywordList arts)))"
    by (simp add: set_spreadSet)
qed

lemma matched_topics_in_range:
  "t \<in> set (spreadSet (topicBuilder u (keywordList arts))) \<Longrightarrow> 0 \<le> t \<and> nat t < length arts"
  by (auto simp: matched_topics)



section \<open>Truncation\<close>

lemma truncatePosts_take:
  "truncatePosts d xs = take (case d of desktop \<Rightarrow> 10 | mobile \<Rightarrow> 6) xs"
  by (cases d) (simp_all add: truncatePosts_def maximumDesktopPosts_def maximumMobilePosts_def Let_def)









section \<open>Empty keywords\<close>

lemma unsortedTopics_in_range:
  assumes "\<forall>t \<in> set ts. 0 \<le> t \<and> nat t < length arts"
  shows "unsortedTopics arts ts
           = Some (map (\<lambda>t. \<lparr>topicTP = t, priorityTP = topicType (arts ! nat t)\<rparr>) ts)"
  using assms by (induction ts) (simp_all add: unsortedTopics_def lookupIndex_def)

lemma postBuilder_in_range:
  assumes "\<forall>t \<in> set ts. 0 \<le> t \<and> nat t < length arts"
  shows "postBuilder arts acc ts = Some (acc @ concat (map (\<lambda>t. posts (arts ! nat t)) ts))"
  using assms by (induction ts arbitrary: acc) (simp_all add: lookupIndex_def)

text \<open>
  C9. A topic with a keyword whose text is empty is matched on every page, since
  the empty string occurs in every string, so the run never takes the early
  exit; and on a host whose sort returns the elements it was given, the posts of
  the topic are part of the list that \<open>buildPosts\<close> assembles.
\<close>

theorem empty_keyword_matches_every_page:
  assumes "i < length (articles props)" and "kw \<in> set (keywords_K (articles props ! i))"
    and "editorItemTitle_S kw = []"
  shows "int i \<in> set (spreadSet (topicBuilder (currentURL host) (keywordList (articles props))))
     \<and> topicBuilder (currentURL host) (keywordList (articles props)) \<noteq> []
     \<and> ((\<forall>u. set (arraySort host comparisonFunction u) = set u) \<longrightarrow>
          (\<exists>u pb. unsortedTopics (articles props)
                      (spreadSet (topicBuilder (currentURL host) (keywordList (articles props)))) = Some u
                 \<and> postBuilder (articles props) [] (sortedFinalTopics host u) = Some pb
                 \<and> set (posts (articles props ! i)) \<subseteq> set pb))"
proof -
  let ?arts = "articles props"
  let ?ts = "spreadSet (topicBuilder (currentURL host) (keywordList ?arts))"
  let ?u = "map (\<lambda>t. \<lparr>topicTP = t, priorityTP = topicType (?arts ! nat t)\<rparr>) ?ts"
  have "sublist (toLowerCase (editorItemTitle_S kw)) (currentURL host)"
    using assms(3) by (simp add: toLowerCase_def)
  with assms(1,2) have m: "int i \<in> set ?ts"
    unfolding matched_topics by blast
  then have ne: "topicBuilder (currentURL host) (keywordList ?arts) \<noteq> []"
    by (auto simp: set_spreadSet)
  have rng: "\<forall>t \<in> set ?ts. 0 \<le> t \<and> nat t < length ?arts"
    using matched_topics_in_range by blast
  have u: "unsortedTopics ?arts ?ts = Some ?u"
    using rng by (rule unsortedTopics_in_range)
  have c: "\<exists>pb. postBuilder ?arts [] (sortedFinalTopics host ?u) = Some pb
                 \<and> set (posts (?arts ! i)) \<subseteq> set pb"
    if perm: "\<forall>u. set (arraySort host comparisonFunction u) = set u"
  proof -
    have s: "set (sortedFinalTopics host ?u) = set ?ts"
      using perm by (simp add: sortedFinalTopics_def image_image)
    then have "\<forall>t \<in> set (sortedFinalTopics host ?u). 0 \<le> t \<and> nat t < length ?arts"
      using rng by simp
    then have "postBuilder ?arts [] (sortedFinalTopics host ?u)
                 = Some ([] @ concat (map (\<lambda>t. posts (?arts ! nat t)) (sortedFinalTopics host ?u)))"
      by (rule postBuilder_in_range)
    moreover have "set (posts (?arts ! i))
        \<subseteq> set (concat (map (\<lambda>t. posts (?arts ! nat t)) (sortedFinalTopics host ?u)))"
      using m s by force
    ultimately show ?thesis by simp
  qed
  from m ne u c show ?thesis by blast
qed

theorem empty_keyword_matches_every_page_witness:
  "(0::nat) < length (articles \<lparr>titleText = [],
        articles = [mkTopic 5 [[]] [mkPost [] True ''Stores'' ''/stores'']], priority = []\<rparr>)
   \<and> \<lparr>editorItemTitle_S = []\<rparr> \<in> set (keywords_K (articles \<lparr>titleText = [],
        articles = [mkTopic 5 [[]] [mkPost [] True ''Stores'' ''/stores'']], priority = []\<rparr> ! 0))
   \<and> int 0 \<in> set (spreadSet (topicBuilder
         (currentURL (sampleHost ''/any/page'' [] 1200 1700000000000))
         (keywordList (articles \<lparr>titleText = [],
            articles = [mkTopic 5 [[]] [mkPost [] True ''Stores'' ''/stores'']], priority = []\<rparr>))))
   \<and> (\<exists>u pb. unsortedTopics (articles \<lparr>titleText = [],
            articles = [mkTopic 5 [[]] [mkPost [] True ''Stores'' ''/stores'']], priority = []\<rparr>)
          (spreadSet (topicBuilder (currentURL (sampleHost ''/any/page'' [] 1200 1700000000000))
            (keywordList (articles \<lparr>titleText = [],
               articles = [mkTopic 5 [[]] [mkPost [] True ''Stores'' ''/stores'']], priority = []\<rparr>))))
          = Some u
        \<and> postBuilder (articles \<lparr>titleText = [],
            articles = [mkTopic 5 [[]] [mkPost [] True ''Stores'' ''/stores'']], priority = []\<rparr>) []
            (sortedFinalTopics (sampleHost ''/any/page'' [] 1200 1700000000000) u) = Some pb
        \<and> set (posts (articles \<lparr>titleText = [],
            articles = [mkTopic 5 [[]] [mkPost [] True ''Stores'' ''/stores'']], priority = []\<rparr> ! 0))
           \<subseteq> set pb)
   \<and> stateOf (messageHandler (sampleHost ''/any/page'' [] 1200 1700000000000)
        \<lparr>titleText = [], articles = [mkTopic 5 [[]] [mkPost [] True ''Stores'' ''/stores'']],
         priority = []\<rparr> ''ebs-infohub-run'' initialComponent)
       = \<lparr>loading = False, postsState = [mkPost [] True ''Stores'' ''/stores''], device = desktop,
          activePriorityPosts = 0\<rparr>"
proof -
  let ?H = "sampleHost ''/any/page'' [] 1200 1700000000000"
  let ?props = "\<lparr>titleText = [],
        articles = [mkTopic 5 [[]] [mkPost [] True ''Stores'' ''/stores'']],
        priority = ([] :: PostObject list)\<rparr>"
  have h1: "(0::nat) < length (articles ?props)" by simp
  have h2: "\<lparr>editorItemTitle_S = []\<rparr> \<in> set (keywords_K (articles ?props ! 0))"
    by (simp add: mkTopic_def)
  have h3: "editorItemTitle_S \<lparr>editorItemTitle_S = []\<rparr> = []" by simp
  have h4: "\<forall>u. set (arraySort ?H comparisonFunction u) = set u"
    by (simp add: sampleHost_sort)
  note t = empty_keyword_matches_every_page [OF h1 h2 h3, of ?H]
  have r: "stateOf (messageHandler ?H ?props ''ebs-infohub-run'' initialComponent)
       = \<lparr>loading = False, postsState = [mkPost [] True ''Stores'' ''/stores''], device = desktop,
          activePriorityPosts = 0\<rparr>"
    by code_simp
  from h1 h2 conjunct1 [OF t] mp [OF conjunct2 [OF conjunct2 [OF t]] h4] r
  show ?thesis by (intro conjI) assumption+
qed


section \<open>The configuration and the object store\<close>

subsection \<open>The activation step makes new objects\<close>

lemma tempPost_store_fresh:
  "\<exists>z. tempPost_store host h p = (length h, h @ [z])"
  by (simp add: tempPost_store_def alloc_def writeActive_def Let_def split: option.splits)

lemma tempPost_store_valid:
  "p < length h \<Longrightarrow> tempPost_store host h p = (length h, h @ [tempPost host (h ! p)])"
  by (simp add: tempPost_store_def tempPost_def alloc_def writeActive_def nth_append Let_def
      split: option.splits)

lemma postsWithInactive_store_eq:
  assumes "\<forall>r \<in> set rs. r < length h"
  shows "postsWithInactive_store host h rs
           = (h @ map (\<lambda>r. tempPost host (h ! r)) rs, [length h..<length h + length rs])"
  using assms
proof (induction rs arbitrary: h)
  case Nil
  show ?case by simp
next
  case (Cons r rs)
  let ?h2 = "h @ [tempPost host (h ! r)]"
  from Cons.prems have r: "r < length h" and rs: "\<forall>q \<in> set rs. q < length h"
    by simp_all
  from rs have rs2: "\<forall>q \<in> set rs. q < length ?h2" by auto
  have same: "map (\<lambda>q. tempPost host (?h2 ! q)) rs = map (\<lambda>q. tempPost host (h ! q)) rs"
    using rs by (simp add: nth_append)
  have "postsWithInactive_store host h (r # rs)
          = (?h2 @ map (\<lambda>q. tempPost host (?h2 ! q)) rs,
             length h # [length ?h2..<length ?h2 + length rs])"
    by (simp add: tempPost_store_valid [OF r] Cons.IH [OF rs2])
  also have "\<dots> = (h @ map (\<lambda>q. tempPost host (h ! q)) (r # rs),
                    [length h..<length h + length (r # rs)])"
    using upt_rec [of "length h" "length h + Suc (length rs)"] by (simp add: same)
  finally show ?case .
qed

lemma postsWithInactive_store_extends:
  "\<exists>ext. fst (postsWithInactive_store host h rs) = h @ ext"
proof (induction rs arbitrary: h)
  case Nil
  show ?case by simp
next
  case (Cons r rs)
  obtain z where z: "tempPost_store host h r = (length h, h @ [z])"
    using tempPost_store_fresh by blast
  obtain ext where "fst (postsWithInactive_store host (h @ [z]) rs) = (h @ [z]) @ ext"
    using Cons.IH by blast
  then have "fst (postsWithInactive_store host h (r # rs)) = h @ ([z] @ ext)"
    using z by (simp add: case_prod_beta)
  then show ?case by blast
qed

subsection \<open>The stages over the store compute what the stages over values compute\<close>

lemma nth_appended_interval:
  "map ((!) (xs @ ys)) [length xs..<length xs + length ys] = ys"
  by (rule nth_equalityI) (simp_all add: nth_append)

lemma activePosts_store_eq:
  assumes "\<forall>r \<in> set rs. r < length h"
  shows "fst (activePosts_store host h rs) = h @ map (\<lambda>r. tempPost host (h ! r)) rs"
    and "map ((!) (fst (activePosts_store host h rs))) (snd (activePosts_store host h rs))
           = activePosts host (map ((!) h) rs)"
proof -
  let ?ts = "map (\<lambda>r. tempPost host (h ! r)) rs"
  let ?ws = "[length h..<length h + length rs]"
  have eq: "activePosts_store host h rs
              = (h @ ?ts, filter (\<lambda>p. active ((h @ ?ts) ! p)) ?ws)"
    by (simp add: activePosts_store_def postsWithInactive_store_eq [OF assms])
  show "fst (activePosts_store host h rs) = h @ ?ts"
    by (simp add: eq)
  have m: "map ((!) (h @ ?ts)) ?ws = ?ts"
    using nth_appended_interval [of h ?ts] by simp
  have "filter active ?ts = filter active (map ((!) (h @ ?ts)) ?ws)"
    by (simp only: m)
  also have "\<dots> = map ((!) (h @ ?ts)) (filter (active \<circ> (!) (h @ ?ts)) ?ws)"
    by (rule filter_map)
  finally have "map ((!) (h @ ?ts)) (filter (\<lambda>p. active ((h @ ?ts) ! p)) ?ws) = filter active ?ts"
    by (simp add: o_def)
  then show "map ((!) (fst (activePosts_store host h rs))) (snd (activePosts_store host h rs))
           = activePosts host (map ((!) h) rs)"
    by (simp add: eq activePosts_def postsWithInactive_def o_def)
qed

lemma Map_set_map_values:
  "map (\<lambda>(k, r). (k, f r)) (Map_set m k v) = Map_set (map (\<lambda>(k, r). (k, f r)) m) k (f v)"
  by (induction m) auto

lemma postMap_store:
  "map (\<lambda>(k, r). (k, h ! r)) (foldl (\<lambda>m p. Map_set m (editorItemTitle (h ! p)) p) m0 rs)
     = foldl (\<lambda>m p. Map_set m (editorItemTitle p) p) (map (\<lambda>(k, r). (k, h ! r)) m0) (map ((!) h) rs)"
  by (induction rs arbitrary: m0) (simp_all add: Map_set_map_values)

lemma uniquePosts_store_eq:
  "map ((!) h) (uniquePosts_store h rs) = uniquePosts (map ((!) h) rs)"
proof -
  have "map ((!) h) (uniquePosts_store h rs)
          = map snd (map (\<lambda>(k, r). (k, h ! r))
              (foldl (\<lambda>m p. Map_set m (editorItemTitle (h ! p)) p) [] rs))"
    by (simp add: uniquePosts_store_def o_def case_prod_beta)
  also have "\<dots> = uniquePosts (map ((!) h) rs)"
    by (simp only: postMap_store) (simp add: uniquePosts_def postMap_def)
  finally show ?thesis .
qed

lemma countActive_store_eq: "countActive_store h rs = countActive (map ((!) h) rs)"
  by (simp add: countActive_store_def countActive_def foldl_map)

lemma lookupIndex_map: "lookupIndex (map g xs) i = map_option g (lookupIndex xs i)"
  by (simp add: lookupIndex_def)

lemma postBuilder_deref:
  "postBuilder (map (derefTopic h) arts) (map ((!) h) acc) ts
     = map_option (map ((!) h)) (postBuilder arts acc ts)"
proof (induction ts arbitrary: acc)
  case Nil
  show ?case by simp
next
  case (Cons t ts)
  show ?case
  proof (cases "lookupIndex arts t")
    case None
    then show ?thesis by (simp add: lookupIndex_map)
  next
    case (Some a)
    have "postBuilder (map (derefTopic h) arts) (map ((!) h) acc) (t # ts)
            = postBuilder (map (derefTopic h) arts) (map ((!) h) (acc @ posts a)) ts"
      using Some by (simp add: lookupIndex_map derefTopic_def)
    also have "\<dots> = map_option (map ((!) h)) (postBuilder arts (acc @ posts a) ts)"
      by (rule Cons.IH)
    finally show ?thesis using Some by simp
  qed
qed

lemma unsortedTopics_deref: "unsortedTopics (map (derefTopic h) arts) ts = unsortedTopics arts ts"
proof -
  have "(\<lambda>t. map_option (\<lambda>a. \<lparr>topicTP = t, priorityTP = topicType a\<rparr>)
               (lookupIndex (map (derefTopic h) arts) t))
        = (\<lambda>t. map_option (\<lambda>a. \<lparr>topicTP = t, priorityTP = topicType a\<rparr>) (lookupIndex arts t))"
    by (rule ext) (simp add: lookupIndex_map option.map_comp o_def derefTopic_def)
  then show ?thesis by (simp add: unsortedTopics_def)
qed

lemma keywordList_deref: "keywordList (map (derefTopic h) arts) = keywordList arts"
proof -
  have e: "enumerate 0 (map (derefTopic h) arts)
          = map (\<lambda>(i, a). (i, derefTopic h a)) (enumerate 0 arts)"
    by (simp add: enumerate_eq_zip zip_map2 case_prod_beta)
  show ?thesis
    unfolding keywordList_def e map_map
    by (simp add: o_def split_def derefTopic_def)
qed

lemma postBuilder_refs:
  "postBuilder arts acc ts = Some pb \<Longrightarrow>
   set pb \<subseteq> set acc \<union> (\<Union>a \<in> set arts. set (posts a))"
proof (induction ts arbitrary: acc)
  case Nil
  then show ?case by auto
next
  case (Cons t ts)
  from Cons.prems obtain a where a: "lookupIndex arts t = Some a"
    and rest: "postBuilder arts (acc @ posts a) ts = Some pb"
    by (auto split: option.splits)
  from a have "a \<in> set arts"
    by (auto simp: lookupIndex_def split: if_splits)
  with Cons.IH [OF rest] show ?case by auto
qed

lemma buildRender_deref:
  "derefOutcome h (buildRender st rs) = buildRender (derefComponent h0 st) (map ((!) h) rs)"
  by (simp add: buildRender_def derefComponent_def truncatePosts_take take_map)

lemma removeInactivePosts_store_sim:
  assumes "\<forall>r \<in> set rs. r < length h"
  shows "derefOutcome (fst (removeInactivePosts_store host (h, st) rs))
           (snd (removeInactivePosts_store host (h, st) rs))
         = removeInactivePosts host (derefComponent h0 st) (map ((!) h) rs)"
proof -
  let ?h' = "fst (activePosts_store host h rs)"
  let ?act = "snd (activePosts_store host h rs)"
  have "removeInactivePosts_store host (h, st) rs
          = (?h', buildRender st (uniquePosts_store ?h' ?act))"
    by (simp add: removeInactivePosts_store_def removeDuplicatePosts_store_def case_prod_beta)
  then have "derefOutcome (fst (removeInactivePosts_store host (h, st) rs))
           (snd (removeInactivePosts_store host (h, st) rs))
         = buildRender (derefComponent h0 st) (map ((!) ?h') (uniquePosts_store ?h' ?act))"
    by (simp add: buildRender_deref)
  also have "\<dots> = buildRender (derefComponent h0 st) (uniquePosts (activePosts host (map ((!) h) rs)))"
    by (simp only: uniquePosts_store_eq activePosts_store_eq(2) [OF assms])
  finally show ?thesis
    by (simp add: removeInactivePosts_def removeDuplicatePosts_def)
qed

lemma removeInactivePosts_store_extends:
  "\<exists>ext. fst (removeInactivePosts_store host (h, st) rs) = h @ ext"
  using postsWithInactive_store_extends [of host h rs]
  by (simp add: removeInactivePosts_store_def removeDuplicatePosts_store_def activePosts_store_def
      case_prod_beta)

lemma validProps_refs:
  assumes "validProps h props" and "postBuilder (articles props) [] ts = Some pb"
  shows "\<forall>r \<in> set (priority props @ pb). r < length h"
  using assms postBuilder_refs [of "articles props" "[]" ts pb]
  by (auto simp: validProps_def)

lemma derefProps_simps:
  "articles (derefProps h props) = map (derefTopic h) (articles props)"
  "priority (derefProps h props) = map ((!) h) (priority props)"
  by (simp_all add: derefProps_def)

lemma buildPosts_store_sim:
  assumes "validProps h props"
  shows "derefOutcome (fst (buildPosts_store host props (h, st) ts))
           (snd (buildPosts_store host props (h, st) ts))
         = buildPosts host (derefProps h props) (derefComponent h st) ts"
proof (cases "postBuilder (articles props) [] ts")
  case None
  moreover have "postBuilder (map (derefTopic h) (articles props)) [] ts = None"
    using postBuilder_deref [of h "articles props" "[]" ts] None by simp
  ultimately show ?thesis
    by (simp add: buildPosts_store_def buildPosts_def derefProps_simps)
next
  case (Some pb)
  let ?st' = "st\<lparr>activePriorityPosts := countActive_store h (priority props)\<rparr>"
  have v: "\<forall>r \<in> set (priority props @ pb). r < length h"
    using assms Some by (rule validProps_refs)
  have p: "postBuilder (map (derefTopic h) (articles props)) [] ts = Some (map ((!) h) pb)"
    using postBuilder_deref [of h "articles props" "[]" ts] Some by simp
  have d: "derefComponent h ?st'
             = (derefComponent h st)\<lparr>activePriorityPosts := countActive (map ((!) h) (priority props))\<rparr>"
    by (simp add: derefComponent_def countActive_store_eq)
  have "buildPosts_store host props (h, st) ts
          = removeInactivePosts_store host (h, ?st') (priority props @ pb)"
    using Some by (simp add: buildPosts_store_def)
  then have "derefOutcome (fst (buildPosts_store host props (h, st) ts))
           (snd (buildPosts_store host props (h, st) ts))
         = removeInactivePosts host (derefComponent h ?st') (map ((!) h) (priority props @ pb))"
    by (simp only: removeInactivePosts_store_sim [OF v])
  also have "\<dots> = buildPosts host (derefProps h props) (derefComponent h st) ts"
    by (simp add: buildPosts_def derefProps_simps p d)
  finally show ?thesis .
qed

lemma buildPosts_store_extends:
  "\<exists>ext. fst (buildPosts_store host props (h, st) ts) = h @ ext"
  using removeInactivePosts_store_extends
  by (auto simp: buildPosts_store_def split: option.splits)

lemma sortTopics_store_sim:
  assumes "validProps h props"
  shows "derefOutcome (fst (sortTopics_store host props (h, st) ts))
           (snd (sortTopics_store host props (h, st) ts))
         = sortTopics host (derefProps h props) (derefComponent h st) ts"
  by (cases "unsortedTopics (articles props) ts")
     (simp_all add: sortTopics_store_def sortTopics_def derefProps_simps unsortedTopics_deref
        buildPosts_store_sim [OF assms])

lemma sortTopics_store_extends:
  "\<exists>ext. fst (sortTopics_store host props (h, st) ts) = h @ ext"
  using buildPosts_store_extends
  by (auto simp: sortTopics_store_def split: option.splits)

lemma searchCurrentURL_store_sim:
  assumes "validProps h props"
  shows "derefOutcome (fst (searchCurrentURL_store host props (h, st) kl))
           (snd (searchCurrentURL_store host props (h, st) kl))
         = searchCurrentURL host (derefProps h props) (derefComponent h st) kl"
proof -
  have d1: "derefComponent h (st\<lparr>loading := False\<rparr>) = (derefComponent h st)\<lparr>loading := False\<rparr>"
    by (simp add: derefComponent_def)
  have d2: "derefComponent h (st\<lparr>device := deviceOf host\<rparr>)
              = (derefComponent h st)\<lparr>device := deviceOf host\<rparr>"
    by (simp add: derefComponent_def)
  show ?thesis
    by (simp add: searchCurrentURL_store_def searchCurrentURL_def Let_def d1
        sortTopics_store_sim [OF assms] d2)
qed

lemma searchCurrentURL_store_extends:
  "\<exists>ext. fst (searchCurrentURL_store host props (h, st) kl) = h @ ext"
  using sortTopics_store_extends
  by (auto simp: searchCurrentURL_store_def Let_def)

lemma messageHandler_store_sim:
  assumes "validProps h props"
  shows "derefOutcome (fst (messageHandler_store host props e (h, st)))
           (snd (messageHandler_store host props e (h, st)))
         = messageHandler host (derefProps h props) e (derefComponent h st)"
proof -
  have d: "derefComponent h (st\<lparr>loading := True, postsState := []\<rparr>)
             = (derefComponent h st)\<lparr>loading := True, postsState := []\<rparr>"
    by (simp add: derefComponent_def)
  show ?thesis
    by (simp add: messageHandler_store_def messageHandler_def resetInfoHub_store_def
        resetInfoHub_def buildKeywordList_store_def buildKeywordList_def
        searchCurrentURL_store_sim [OF assms] d derefProps_simps keywordList_deref)
qed

lemma messageHandler_store_extends:
  "\<exists>ext. fst (messageHandler_store host props e (h, st)) = h @ ext"
  using searchCurrentURL_store_extends
  by (auto simp: messageHandler_store_def resetInfoHub_store_def buildKeywordList_store_def)

lemma validProps_extends:
  assumes "validProps h props"
  shows "validProps (h @ ext) props" and "derefProps (h @ ext) props = derefProps h props"
proof -
  show "validProps (h @ ext) props"
    using assms by (fastforce simp: validProps_def intro: trans_less_add1)
  have a: "map ((!) (h @ ext)) (priority props) = map ((!) h) (priority props)"
    using assms by (simp add: validProps_def nth_append)
  have b: "map (derefTopic (h @ ext)) (articles props) = map (derefTopic h) (articles props)"
    using assms by (simp add: validProps_def derefTopic_def nth_append)
  show "derefProps (h @ ext) props = derefProps h props"
    by (simp add: derefProps_def a b)
qed

text \<open>
  C7. A run writes only to objects it has made itself: every object that was in
  the store before the trigger is the same object afterwards, so no post of the
  configuration changes, its \<open>active\<close> field included, and the configuration
  read through the later store is the configuration read through the earlier
  one. The outcome of a run, read through the store, is the outcome of the
  pipeline on post values. Hence a second run, at another time, behaves as the
  pipeline on the configuration as it was before the first run: a post that the
  first run held back because its start date lay ahead is shown by a run after
  that date.
\<close>

theorem configuration_is_not_mutated:
  assumes "validProps h props"
    and "messageHandler_store host props e (h, st) = (h', out)"
    and "messageHandler_store host2 props e2 (h', stateOf out) = (h'', out2)"
  shows "(\<forall>r<length h. h' ! r = h ! r \<and> h'' ! r = h ! r)
     \<and> derefProps h' props = derefProps h props
     \<and> derefProps h'' props = derefProps h props
     \<and> derefOutcome h' out = messageHandler host (derefProps h props) e (derefComponent h st)
     \<and> derefOutcome h'' out2
         = messageHandler host2 (derefProps h props) e2 (derefComponent h' (stateOf out))"
proof -
  obtain ext where ext: "h' = h @ ext"
    using messageHandler_store_extends [of host props e h st] assms(2) by auto
  obtain ext2 where ext2: "h'' = h' @ ext2"
    using messageHandler_store_extends [of host2 props e2 h' "stateOf out"] assms(3) by auto
  have v': "validProps h' props" and p': "derefProps h' props = derefProps h props"
    using validProps_extends [OF assms(1), of ext] ext by simp_all
  have p'': "derefProps h'' props = derefProps h' props"
    using validProps_extends(2) [OF v', of ext2] ext2 by simp
  have s1: "derefOutcome h' out = messageHandler host (derefProps h props) e (derefComponent h st)"
    using messageHandler_store_sim [OF assms(1), of host e st] assms(2) by simp
  have s2: "derefOutcome h'' out2
         = messageHandler host2 (derefProps h' props) e2 (derefComponent h' (stateOf out))"
    using messageHandler_store_sim [OF v', of host2 e2 "stateOf out"] assms(3) by simp
  have n: "\<forall>r<length h. h' ! r = h ! r \<and> h'' ! r = h ! r"
    by (simp add: ext ext2 nth_append)
  from n p' p'' s1 s2 show ?thesis by simp
qed

theorem configuration_is_not_mutated_witness:
  "validProps [mkPost ''2020-01-01'' True ''Launch'' ''/launch'']
      \<lparr>titleText = [], articles = [mkTopic 0 [''launch''] [0]], priority = []\<rparr>
   \<and> messageHandler_store (sampleHost ''/launch-week'' [] 1200 1500000000000)
        \<lparr>titleText = [], articles = [mkTopic 0 [''launch''] [0]], priority = []\<rparr>
        ''ebs-infohub-run''
        ([mkPost ''2020-01-01'' True ''Launch'' ''/launch''], initialComponent)
      = ([mkPost ''2020-01-01'' True ''Launch'' ''/launch'',
          mkPost ''2020-01-01'' False ''Launch'' ''/launch''],
         Returned \<lparr>loading = False, postsState = [], device = desktop, activePriorityPosts = 0\<rparr>)
   \<and> messageHandler_store (sampleHost ''/launch-week'' [] 1200 1700000000000)
        \<lparr>titleText = [], articles = [mkTopic 0 [''launch''] [0]], priority = []\<rparr>
        ''ebs-infohub-run''
        ([mkPost ''2020-01-01'' True ''Launch'' ''/launch'',
          mkPost ''2020-01-01'' False ''Launch'' ''/launch''],
         \<lparr>loading = False, postsState = [], device = desktop, activePriorityPosts = 0\<rparr>)
      = ([mkPost ''2020-01-01'' True ''Launch'' ''/launch'',
          mkPost ''2020-01-01'' False ''Launch'' ''/launch'',
          mkPost ''2020-01-01'' True ''Launch'' ''/launch''],
         Returned \<lparr>loading = False, postsState = [2], device = desktop, activePriorityPosts = 0\<rparr>)
   \<and> [mkPost ''2020-01-01'' True ''Launch'' ''/launch'',
          mkPost ''2020-01-01'' False ''Launch'' ''/launch'',
          mkPost ''2020-01-01'' True ''Launch'' ''/launch''] ! 0
      = [mkPost ''2020-01-01'' True ''Launch'' ''/launch''] ! 0
   \<and> derefOutcome [mkPost ''2020-01-01'' True ''Launch'' ''/launch'',
          mkPost ''2020-01-01'' False ''Launch'' ''/launch'',
          mkPost ''2020-01-01'' True ''Launch'' ''/launch'']
        (Returned \<lparr>loading = False, postsState = [2], device = desktop, activePriorityPosts = 0\<rparr>)
      = Returned \<lparr>loading = False, postsState = [mkPost ''2020-01-01'' True ''Launch'' ''/launch''],
          device = desktop, activePriorityPosts = 0\<rparr>"
proof -
  let ?h0 = "[mkPost ''2020-01-01'' True ''Launch'' ''/launch'']"
  let ?h1 = "[mkPost ''2020-01-01'' True ''Launch'' ''/launch'',
          mkPost ''2020-01-01'' False ''Launch'' ''/launch'']"
  let ?h2 = "[mkPost ''2020-01-01'' True ''Launch'' ''/launch'',
          mkPost ''2020-01-01'' False ''Launch'' ''/launch'',
          mkPost ''2020-01-01'' True ''Launch'' ''/launch'']"
  let ?props = "\<lparr>titleText = [], articles = [mkTopic 0 [''launch''] [0::nat]], priority = []\<rparr>"
  let ?early = "sampleHost ''/launch-week'' [] 1200 1500000000000"
  let ?late = "sampleHost ''/launch-week'' [] 1200 1700000000000"
  let ?o1 = "Returned \<lparr>loading = False, postsState = ([] :: nat list), device = desktop,
               activePriorityPosts = 0\<rparr>"
  let ?o2 = "Returned \<lparr>loading = False, postsState = [2::nat], device = desktop,
               activePriorityPosts = 0\<rparr>"
  have v: "validProps ?h0 ?props" by code_simp
  have r1: "messageHandler_store ?early ?props ''ebs-infohub-run'' (?h0, initialComponent) = (?h1, ?o1)"
    by code_simp
  have r2: "messageHandler_store ?late ?props ''ebs-infohub-run'' (?h1, stateOf ?o1) = (?h2, ?o2)"
    by code_simp
  note t = configuration_is_not_mutated [OF v r1 r2]
  from t have a: "?h2 ! 0 = ?h0 ! 0" by simp
  from t have b: "derefOutcome ?h2 ?o2
      = messageHandler ?late (derefProps ?h0 ?props) ''ebs-infohub-run''
          (derefComponent ?h1 (stateOf ?o1))"
    by (elim conjE)
  have c: "messageHandler ?late (derefProps ?h0 ?props) ''ebs-infohub-run''
          (derefComponent ?h1 (stateOf ?o1))
       = Returned \<lparr>loading = False, postsState = [mkPost ''2020-01-01'' True ''Launch'' ''/launch''],
          device = desktop, activePriorityPosts = 0\<rparr>"
    by code_simp
  have r2': "messageHandler_store ?late ?props ''ebs-infohub-run''
       (?h1, \<lparr>loading = False, postsState = [], device = desktop, activePriorityPosts = 0\<rparr>) = (?h2, ?o2)"
    using r2 by simp
  from v r1 r2' a b [unfolded c] show ?thesis by (intro conjI)
qed

end
